theory Spec2Isabelle
  imports Complex_Main "HOL-Library.Word" "HOL-Library.Log_Nat"
begin

section \<open>Hyena vault cap monitor (\<^verbatim>\<open>src/hyena_monitor.py\<close>)\<close>

text \<open>
  A shallow embedding of \<^verbatim>\<open>VaultCapMonitor\<close> and \<^verbatim>\<open>main\<close>. The collaborators of the
  program (the RPC endpoint, the clock, the HTTP client) are not code of the program: what
  they answer in one cycle is an input of the model (\<open>cycle_env\<close>). Console lines and HTTP
  requests are returned as a list of effects in the order the program performs them. An
  exception of Python is a value: a function that can raise returns the exception beside
  its effects, and each \<^verbatim>\<open>try/except Exception\<close> of the source is a case distinction on it.
  Interrupts (\<^verbatim>\<open>KeyboardInterrupt\<close>, task cancellation) and the duration of
  \<^verbatim>\<open>asyncio.sleep\<close> are outside the model. The messages of the program are written
  without their emoji.
\<close>

subsection \<open>Numbers: uint256, Decimal and float\<close>

text \<open>
  A contract call returns a \<^verbatim>\<open>uint256\<close>. \<^verbatim>\<open>w3.from_wei(n, 'ether')\<close> divides it by
  \<open>10^18\<close> in \<^verbatim>\<open>decimal.Decimal\<close> with 999 digits of precision, which is exact for a
  256-bit value: a \<open>decimal\<close> is modelled by the rational it denotes.

  A Python \<^verbatim>\<open>float\<close> is an IEEE 754 binary64 number. Every float the program computes is
  finite, so a float is modelled by the rational it denotes, and each operation returns the
  exact result rounded to the nearest number with a 53-bit significand, ties to even
  (\<open>round_binary64\<close>). The exponent is not bounded in the model. The float of a cap lies
  in \<open>[0, 2^198)\<close> (\<open>float_of_cap_bounds\<close>), is 0 or at least \<open>10^-18\<close>, and is a binary64
  number (\<open>float_of_cap_is_binary64\<close>); the caps, their differences and the percents of the
  program stay inside the exponent range of binary64, where neither overflow nor a
  subnormal number occurs.
\<close>

type_synonym uint256 = "256 word"
type_synonym decimal = rat
type_synonym pyfloat = rat

definition from_wei :: "uint256 \<Rightarrow> decimal" where
  "from_wei n = of_int (uint n) / 10 ^ 18"

definition pow2 :: "int \<Rightarrow> rat" where
  "pow2 e = (if 0 \<le> e then 2 ^ nat e else 1 / 2 ^ nat (- e))"

text \<open>The integer nearest to \<open>y\<close>; a tie goes to the even neighbour.\<close>

definition round_half_even :: "rat \<Rightarrow> int" where
  "round_half_even y =
     (let f = \<lfloor>y\<rfloor>; d = y - of_int f
      in if d < 1 / 2 then f
         else if 1 / 2 < d then f + 1
         else if even f then f else f + 1)"

text \<open>\<open>ilog2 x\<close> is the exponent \<open>e\<close> with \<open>2^e \<le> x < 2^(e+1)\<close>, for \<open>x > 0\<close>.\<close>

definition ilog2 :: "rat \<Rightarrow> int" where
  "ilog2 x =
     (case quotient_of x of (p, q) \<Rightarrow>
        let e0 = bitlen p - bitlen q
        in if pow2 e0 \<le> x then e0 else e0 - 1)"

definition round_binary64 :: "rat \<Rightarrow> pyfloat" where
  "round_binary64 x =
     (if x = 0 then 0
      else let e = ilog2 \<bar>x\<bar>
           in of_int (round_half_even (x * pow2 (52 - e))) * pow2 (e - 52))"

text \<open>The finite binary64 numbers: 0; the normal numbers, with an exponent \<open>e\<close> from -1022
  to 1023 and a significand of 53 bits, that is a multiple of \<open>2^(e-52)\<close>; and the subnormal
  numbers, the multiples of \<open>2^-1074\<close> below \<open>2^-1022\<close>.\<close>

definition is_integer :: "rat \<Rightarrow> bool" where
  "is_integer y = (of_int \<lfloor>y\<rfloor> = y)"

definition is_binary64 :: "rat \<Rightarrow> bool" where
  "is_binary64 x =
     (x = 0 \<or>
      (let e = ilog2 \<bar>x\<bar>
       in if e < - 1022 then is_integer (x * pow2 1074)
          else e \<le> 1023 \<and> is_integer (x * pow2 (52 - e))))"

text \<open>\<^verbatim>\<open>float(d)\<close> for a \<^verbatim>\<open>Decimal\<close> (or the \<^verbatim>\<open>int\<close> 0 that \<^verbatim>\<open>from_wei\<close> returns for 0).\<close>

definition float_of_decimal :: "decimal \<Rightarrow> pyfloat" where
  "float_of_decimal d = round_binary64 d"

datatype py_exception = Exception string | ZeroDivisionError

definition fsub :: "pyfloat \<Rightarrow> pyfloat \<Rightarrow> pyfloat" where
  "fsub a b = round_binary64 (a - b)"

definition fmul :: "pyfloat \<Rightarrow> pyfloat \<Rightarrow> pyfloat" where
  "fmul a b = round_binary64 (a * b)"

text \<open>Python raises \<^verbatim>\<open>ZeroDivisionError\<close> on a float division by zero.\<close>

definition fdiv :: "pyfloat \<Rightarrow> pyfloat \<Rightarrow> py_exception + pyfloat" where
  "fdiv a b = (if b = 0 then Inl ZeroDivisionError else Inr (round_binary64 (a / b)))"

subsection \<open>Configuration, collaborators, effects\<close>

record config =
  RPC_URL :: string
  VAULT_MANAGER_ADDRESS :: string
  TOKEN_ADDRESS :: string
  CHECK_INTERVAL :: nat
  WEBHOOK_URL :: "string option"

text \<open>The module-level dictionary, with the default of \<^verbatim>\<open>RPC_URL\<close>. The functions take
  the configuration as a parameter, since the dictionary can be assigned to.\<close>

definition CONFIG :: config where
  "CONFIG = \<lparr> RPC_URL = ''https://rpc.hyperliquid.xyz/evm'',
              VAULT_MANAGER_ADDRESS = ''0x7E698EEa0709e4a0Dbbd790fC493D60691801157'',
              TOKEN_ADDRESS = ''0x54a98ff45a7dbdf30c54e32fd330d3ea582a5559'',
              CHECK_INTERVAL = 60,
              WEBHOOK_URL = None \<rparr>"

text \<open>The outcome of \<^verbatim>\<open>self.vault.functions.f().call()\<close>: an exception with its message,
  or the \<^verbatim>\<open>uint256\<close> returned.\<close>

datatype call_result = Raises string | Returns uint256

text \<open>The outcome of \<^verbatim>\<open>requests.post\<close>: an exception (malformed URL, connection error,
  timeout), or a response with its \<^verbatim>\<open>ok\<close> flag and status code.\<close>

datatype post_result = PostRaises string | Response bool nat

text \<open>What the world answers during one call of \<^verbatim>\<open>check_cap_change\<close>. \<open>now_check\<close> is the
  formatted \<^verbatim>\<open>datetime.now()\<close> of line 130, \<open>now_error\<close> that of line 167.\<close>

record cycle_env =
  cap_call :: call_result
  assets_call :: call_result
  supply_call :: call_result
  now_check :: string
  now_error :: string
  post :: post_result

text \<open>The value of an optional getter: a \<^verbatim>\<open>Decimal\<close> or the string \<^verbatim>\<open>'N/A'\<close>.\<close>

datatype amount = Amount decimal | NA

text \<open>The dictionary passed to \<^verbatim>\<open>send_webhook_notification\<close>; field \<open>data_k\<close> is key \<open>k\<close>.\<close>

record change_data =
  data_old_cap :: pyfloat
  data_new_cap :: pyfloat
  data_change :: pyfloat
  data_change_percent :: pyfloat
  data_timestamp :: string
  data_total_assets :: amount
  data_max_supply :: amount

text \<open>A console line is the values the source interpolates into it; the fixed text and
  the number formatting are left out. \<open>CapChangeDetected\<close> is the block of lines 144 to 152.\<close>

datatype line =
    Connected
  | ErrorFetchingCap string
  | Checking string
  | MaxDepositCap decimal
  | TotalAssets amount
  | MaxTokenSupply amount
  | InitialCap decimal
  | CapChangeDetected pyfloat decimal pyfloat pyfloat amount string
  | NotificationSent
  | NotificationError nat
  | ErrorSendingNotification py_exception
  | ErrorLine string py_exception
  | Started string string nat
  | FatalError py_exception

datatype effect = Print line | HttpPost string change_data

record monitor =
  previous_cap :: "pyfloat option"

subsection \<open>\<^verbatim>\<open>VaultCapMonitor\<close>\<close>

text \<open>\<^verbatim>\<open>__init__\<close>, given the answer of \<^verbatim>\<open>self.w3.is_connected()\<close>. The contract object
  of lines 65 to 68 is built from constants and is not part of the state of the model.\<close>

definition init :: "bool \<Rightarrow> effect list \<times> (py_exception + monitor)" where
  "init is_connected =
     (if \<not> is_connected then ([], Inl (Exception ''Unable to connect to HyperEVM RPC''))
      else ([Print Connected], Inr \<lparr> previous_cap = None \<rparr>))"

definition get_current_cap :: "cycle_env \<Rightarrow> effect list \<times> (py_exception + decimal)" where
  "get_current_cap env =
     (case cap_call env of
        Returns max_deposit \<Rightarrow> ([], Inr (from_wei max_deposit))
      | Raises e \<Rightarrow>
          ([Print (ErrorFetchingCap e)], Inl (Exception ''Unable to retrieve vault cap'')))"

definition get_max_token_supply :: "cycle_env \<Rightarrow> amount" where
  "get_max_token_supply env =
     (case supply_call env of
        Returns max_supply \<Rightarrow> Amount (from_wei max_supply)
      | Raises e \<Rightarrow> NA)"

definition get_total_assets :: "cycle_env \<Rightarrow> amount" where
  "get_total_assets env =
     (case assets_call env of
        Returns total_wei \<Rightarrow> Amount (from_wei total_wei)
      | Raises e \<Rightarrow> NA)"

text \<open>The body of the \<^verbatim>\<open>try\<close> of \<^verbatim>\<open>send_webhook_notification\<close> (lines 100 to 119): the
  call of \<^verbatim>\<open>requests.post\<close> (\<open>HttpPost\<close>, whether or not a request reaches the network), then
  the line printed for the response; an exception of the call leaves the body.\<close>

definition send_webhook_try :: "string \<Rightarrow> cycle_env \<Rightarrow> change_data \<Rightarrow> effect list \<times> py_exception option" where
  "send_webhook_try url env data =
     (case post env of
        PostRaises e \<Rightarrow> ([HttpPost url data], Some (Exception e))
      | Response ok status_code \<Rightarrow>
          ([HttpPost url data,
            Print (if ok then NotificationSent else NotificationError status_code)], None))"

text \<open>The result is the effects and the exception that leaves the function, if any.
  \<^verbatim>\<open>not CONFIG['WEBHOOK_URL']\<close> holds for \<^verbatim>\<open>None\<close> and for the empty string.\<close>

definition send_webhook_notification ::
    "config \<Rightarrow> cycle_env \<Rightarrow> change_data \<Rightarrow> effect list \<times> py_exception option" where
  "send_webhook_notification cfg env data =
     (case WEBHOOK_URL cfg of
        None \<Rightarrow> ([], None)
      | Some url \<Rightarrow>
          if url = [] then ([], None)
          else (case send_webhook_try url env data of
                  (out, None) \<Rightarrow> (out, None)
                | (out, Some e) \<Rightarrow> (out @ [Print (ErrorSendingNotification e)], None)))"

text \<open>The body of the \<^verbatim>\<open>try\<close> of \<^verbatim>\<open>check_cap_change\<close> (lines 126 to 164): the monitor
  after it, the effects, and the exception that leaves the body, if any.\<close>

definition check_cap_change_try ::
    "config \<Rightarrow> cycle_env \<Rightarrow> monitor \<Rightarrow> monitor \<times> effect list \<times> py_exception option" where
  "check_cap_change_try cfg env self =
     (case get_current_cap env of
        (out0, Inl e) \<Rightarrow> (self, out0, Some e)
      | (out0, Inr current_cap) \<Rightarrow>
          let total_assets = get_total_assets env;
              max_supply = get_max_token_supply env;
              timestamp = now_check env;
              out1 = out0 @ [Print (Checking timestamp),
                             Print (MaxDepositCap current_cap),
                             Print (TotalAssets total_assets),
                             Print (MaxTokenSupply max_supply)]
          in (case previous_cap self of
                None \<Rightarrow>
                  (self\<lparr> previous_cap := Some (float_of_decimal current_cap) \<rparr>,
                   out1 @ [Print (InitialCap current_cap)], None)
              | Some prev \<Rightarrow>
                  if float_of_decimal current_cap \<noteq> prev then
                    let change = fsub (float_of_decimal current_cap) prev
                    in (case fdiv change prev of
                          Inl e \<Rightarrow> (self, out1, Some e)
                        | Inr ratio \<Rightarrow>
                            let change_percent = fmul ratio 100;
                                out2 = out1 @ [Print (CapChangeDetected prev current_cap change
                                                        change_percent total_assets timestamp)];
                                data = \<lparr> data_old_cap = prev,
                                         data_new_cap = float_of_decimal current_cap,
                                         data_change = change,
                                         data_change_percent = change_percent,
                                         data_timestamp = timestamp,
                                         data_total_assets = total_assets,
                                         data_max_supply = max_supply \<rparr>
                            in (case send_webhook_notification cfg env data of
                                  (out3, Some e) \<Rightarrow> (self, out2 @ out3, Some e)
                                | (out3, None) \<Rightarrow>
                                    (self\<lparr> previous_cap := Some (float_of_decimal current_cap) \<rparr>,
                                     out2 @ out3, None)))
                  else (self, out1, None)))"

text \<open>\<^verbatim>\<open>check_cap_change\<close>: the \<^verbatim>\<open>except Exception\<close> of line 166 prints the exception with
  a timestamp and returns.\<close>

definition check_cap_change ::
    "config \<Rightarrow> cycle_env \<Rightarrow> monitor \<Rightarrow> monitor \<times> effect list \<times> py_exception option" where
  "check_cap_change cfg env self =
     (case check_cap_change_try cfg env self of
        (self', out, None) \<Rightarrow> (self', out, None)
      | (self', out, Some e) \<Rightarrow> (self', out @ [Print (ErrorLine (now_error env) e)], None))"

text \<open>The cycles of \<^verbatim>\<open>start\<close>: the call of line 178 and the calls of the \<^verbatim>\<open>while True\<close>
  loop, one for each element of \<open>envs\<close>. The loop has no exit of its own: the list is the
  finite number of ticks observed, and the exception component is \<open>None\<close> when the loop is
  still running after them. An exception that left \<^verbatim>\<open>check_cap_change\<close> would end
  the loop.\<close>

fun cycles :: "config \<Rightarrow> cycle_env list \<Rightarrow> monitor \<Rightarrow> monitor \<times> effect list \<times> py_exception option" where
  "cycles cfg [] self = (self, [], None)"
| "cycles cfg (env # envs) self =
     (case check_cap_change cfg env self of
        (self', out, Some e) \<Rightarrow> (self', out, Some e)
      | (self', out, None) \<Rightarrow>
          (case cycles cfg envs self' of
             (self'', out', r) \<Rightarrow> (self'', out @ out', r)))"

definition start :: "config \<Rightarrow> cycle_env list \<Rightarrow> monitor \<Rightarrow> monitor \<times> effect list \<times> py_exception option" where
  "start cfg envs self =
     (case cycles cfg envs self of
        (self', out, r) \<Rightarrow>
          (self', Print (Started (VAULT_MANAGER_ADDRESS cfg) (RPC_URL cfg) (CHECK_INTERVAL cfg)) # out, r))"

text \<open>How \<^verbatim>\<open>main\<close> stands after the observed ticks: still in the loop of \<^verbatim>\<open>start\<close>, or
  returned. \<^verbatim>\<open>main\<close> catches every \<^verbatim>\<open>Exception\<close>, so no exception leaves it; a Python
  process whose main coroutine returns ends with exit status 0.\<close>

datatype main_result = Monitoring | Returned

definition main :: "config \<Rightarrow> bool \<Rightarrow> cycle_env list \<Rightarrow> effect list \<times> main_result" where
  "main cfg is_connected envs =
     (case init is_connected of
        (out, Inl e) \<Rightarrow> (out @ [Print (FatalError e)], Returned)
      | (out, Inr monitor) \<Rightarrow>
          (case start cfg envs monitor of
             (self', out', None) \<Rightarrow> (out @ out', Monitoring)
           | (self', out', Some e) \<Rightarrow> (out @ out' @ [Print (FatalError e)], Returned)))"

definition exit_status :: "main_result \<Rightarrow> nat option" where
  "exit_status r = (case r of Monitoring \<Rightarrow> None | Returned \<Rightarrow> Some 0)"

subsection \<open>Observations on the effects of a cycle\<close>

text \<open>A ChangeEvent is the console block of a detected change; the webhook attempt follows
  it in the same branch.\<close>

fun is_change_event :: "effect \<Rightarrow> bool" where
  "is_change_event (Print (CapChangeDetected old new c p a t)) = True"
| "is_change_event _ = False"

definition emits_change_event :: "effect list \<Rightarrow> bool" where
  "emits_change_event out = list_ex is_change_event out"

subsection \<open>Names for parts of a cycle\<close>

text \<open>The four lines printed by lines 132 to 135.\<close>

definition header :: "cycle_env \<Rightarrow> decimal \<Rightarrow> effect list" where
  "header env current_cap =
     [Print (Checking (now_check env)), Print (MaxDepositCap current_cap),
      Print (TotalAssets (get_total_assets env)), Print (MaxTokenSupply (get_max_token_supply env))]"

text \<open>The dictionary built in lines 154 to 162 when the stored cap \<open>prev\<close> is not zero.\<close>

definition change_of :: "cycle_env \<Rightarrow> decimal \<Rightarrow> pyfloat \<Rightarrow> change_data" where
  "change_of env current_cap prev =
     \<lparr> data_old_cap = prev,
       data_new_cap = float_of_decimal current_cap,
       data_change = fsub (float_of_decimal current_cap) prev,
       data_change_percent = fmul (round_binary64 (fsub (float_of_decimal current_cap) prev / prev)) 100,
       data_timestamp = now_check env,
       data_total_assets = get_total_assets env,
       data_max_supply = get_max_token_supply env \<rparr>"

text \<open>A cycle in which the cap read returns \<open>n\<close>, both optional reads fail, and the
  request of the webhook times out: the environment of the examples.\<close>

definition env_of_cap :: "uint256 \<Rightarrow> cycle_env" where
  "env_of_cap n =
     \<lparr> cap_call = Returns n,
       assets_call = Raises ''execution reverted'',
       supply_call = Raises ''execution reverted'',
       now_check = ''03/11/2026 12:00:00'',
       now_error = ''03/11/2026 12:00:01'',
       post = PostRaises ''timed out'' \<rparr>"


section \<open>Properties of the float model\<close>

lemma pow2_powi: "pow2 e = power_int 2 e"
  by (simp add: pow2_def power_int_def inverse_eq_divide power_divide)

lemma pow2_pos: "0 < pow2 e"
  by (simp add: pow2_powi)

lemma pow2_add: "pow2 (a + b) = pow2 a * pow2 b"
  by (simp add: pow2_powi power_int_add)

lemma pow2_cancel: "pow2 (52 - e) * pow2 (e - 52) = 1"
  using pow2_add [of "52 - e" "e - 52"] by (simp add: pow2_def)

lemma bitlen_pow2_bounds:
  assumes "0 < p"
  shows "pow2 (bitlen p - 1) \<le> of_int p" and "of_int p < pow2 (bitlen p)"
proof -
  from assms have b: "1 \<le> bitlen p" 
    by (simp add: bitlen_alt_def)
  have lo: "(2::int) ^ nat (bitlen p - 1) \<le> p" and hi: "p < 2 ^ nat (bitlen p)"
    using bitlen_bounds [OF assms] by simp_all
  have "pow2 (bitlen p - 1) = of_int (2 ^ nat (bitlen p - 1))"
    using b by (simp add: pow2_def)
  also have "\<dots> \<le> of_int p"
    using lo by (simp only: of_int_le_iff)
  finally show "pow2 (bitlen p - 1) \<le> of_int p" .
  have "(of_int p :: rat) < of_int (2 ^ nat (bitlen p))"
    using hi by (simp only: of_int_less_iff)
  also have "\<dots> = pow2 (bitlen p)"
    using b by (simp add: pow2_def)
  finally show "of_int p < pow2 (bitlen p)" .
qed

lemma ilog2_bounds:
  assumes "0 < x"
  shows "pow2 (ilog2 x) \<le> x \<and> x < pow2 (ilog2 x + 1)"
proof -
  obtain p q where pq: "quotient_of x = (p, q)"
    by (cases "quotient_of x")
  have q: "0 < q"
    using pq by (rule quotient_of_denom_pos)
  have x: "x = of_int p / of_int q"
    using pq by (rule quotient_of_div)
  have p: "0 < p"
    using assms q unfolding x by (simp add: zero_less_divide_iff)
  let ?e0 = "bitlen p - bitlen q"
  have lo: "pow2 (?e0 - 1) \<le> x"
  proof -
    have "pow2 (?e0 - 1) * of_int q \<le> pow2 (?e0 - 1) * pow2 (bitlen q)"
      using bitlen_pow2_bounds(2) [OF q] pow2_pos [of "?e0 - 1"] by simp
    also have "\<dots> = pow2 (bitlen p - 1)"
      by (simp add: pow2_add [symmetric])
    also have "\<dots> \<le> of_int p"
      by (rule bitlen_pow2_bounds(1) [OF p])
    finally show ?thesis
      using q unfolding x by (simp add: pos_le_divide_eq)
  qed
  have hi: "x < pow2 (?e0 + 1)"
  proof -
    have "of_int p < pow2 (bitlen p)"
      by (rule bitlen_pow2_bounds(2) [OF p])
    also have "\<dots> = pow2 (?e0 + 1) * pow2 (bitlen q - 1)"
      by (simp add: pow2_add [symmetric])
    also have "\<dots> \<le> pow2 (?e0 + 1) * of_int q"
      using bitlen_pow2_bounds(1) [OF q] pow2_pos [of "?e0 + 1"] by simp
    finally show ?thesis
      using q unfolding x by (simp add: pos_divide_less_eq)
  qed
  show ?thesis
  proof (cases "pow2 ?e0 \<le> x")
    case True
    then have "ilog2 x = ?e0"
      by (simp add: ilog2_def pq)
    with True hi show ?thesis by simp
  next
    case False
    then have "ilog2 x = ?e0 - 1"
      by (simp add: ilog2_def pq)
    with False lo show ?thesis by simp
  qed
qed

lemma round_half_even_bounds:
  "y - 1 / 2 \<le> of_int (round_half_even y)" "of_int (round_half_even y) \<le> y + 1 / 2"
proof -
  define f where "f = \<lfloor>y\<rfloor>"
  define d where "d = y - of_int f"
  have d: "0 \<le> d" "d < 1"
    unfolding d_def f_def by linarith+
  have r: "round_half_even y = (if d < 1 / 2 then f else if 1 / 2 < d then f + 1 else if even f then f else f + 1)"
    by (simp add: round_half_even_def Let_def f_def d_def)
  have y: "y = of_int f + d"
    by (simp add: d_def)
  have "of_int f + d - 1 / 2 \<le> of_int (round_half_even y)"
    using d by (simp add: r)
  then show "y - 1 / 2 \<le> of_int (round_half_even y)"
    by (simp add: d_def)
  have "of_int (round_half_even y) \<le> of_int f + d + 1 / 2"
    using d by (simp add: r)
  then show "of_int (round_half_even y) \<le> y + 1 / 2"
    by (simp add: d_def)
qed

lemma round_binary64_error:
  "\<bar>round_binary64 x - x\<bar> \<le> \<bar>x\<bar> / 2 ^ 53"
proof (cases "x = 0")
  case True
  then show ?thesis by (simp add: round_binary64_def)
next
  case False
  define e where "e = ilog2 \<bar>x\<bar>"
  define y where "y = x * pow2 (52 - e)"
  have e: "pow2 e \<le> \<bar>x\<bar>"
    using ilog2_bounds [of "\<bar>x\<bar>"] False by (simp add: e_def)
  have r: "round_binary64 x = of_int (round_half_even y) * pow2 (e - 52)"
    using False by (simp add: round_binary64_def Let_def e_def y_def)
  have yx: "y * pow2 (e - 52) = x"
    using pow2_cancel [of e] by (simp add: y_def mult.assoc)
  have "pow2 e * pow2 (52 - e) \<le> \<bar>x\<bar> * pow2 (52 - e)"
    using e pow2_pos [of "52 - e"] by simp
  moreover have "pow2 e * pow2 (52 - e) = 2 ^ 52"
    using pow2_add [of e "52 - e"] by (simp add: pow2_def)
  moreover have "\<bar>y\<bar> = \<bar>x\<bar> * pow2 (52 - e)"
    using pow2_pos [of "52 - e"] by (simp add: y_def abs_mult)
  ultimately have y52: "2 ^ 52 \<le> \<bar>y\<bar>"
    by simp
  have "\<bar>of_int (round_half_even y) - y\<bar> \<le> 1 / 2"
    using round_half_even_bounds [of y] by linarith
  also have "\<dots> \<le> \<bar>y\<bar> / 2 ^ 53"
    using y52 by simp
  finally have "\<bar>of_int (round_half_even y) - y\<bar> * pow2 (e - 52) \<le> \<bar>y\<bar> / 2 ^ 53 * pow2 (e - 52)"
    using pow2_pos [of "e - 52"] by simp
  moreover have "round_binary64 x - x = (of_int (round_half_even y) - y) * pow2 (e - 52)"
    by (simp add: r left_diff_distrib yx)
  moreover have "\<bar>x\<bar> = \<bar>y\<bar> * pow2 (e - 52)"
    using pow2_pos [of "e - 52"] by (simp add: yx [symmetric] abs_mult)
  ultimately show ?thesis
    by (simp add: abs_mult pow2_pos less_imp_le)
qed

lemma round_binary64_eq_0_iff: "round_binary64 x = 0 \<longleftrightarrow> x = 0"
proof
  assume "round_binary64 x = 0"
  with round_binary64_error [of x] have "\<bar>x\<bar> \<le> \<bar>x\<bar> / 2 ^ 53"
    by simp
  then have "\<bar>x\<bar> * 2 ^ 53 \<le> \<bar>x\<bar> * 1"
    by (simp add: pos_le_divide_eq)
  then show "x = 0"
    by (cases "x = 0") (simp_all add: mult_le_cancel_left)
next
  assume "x = 0"
  then show "round_binary64 x = 0" by (simp add: round_binary64_def)
qed

lemma round_binary64_bounds:
  assumes "0 \<le> x"
  shows "0 \<le> round_binary64 x" and "round_binary64 x \<le> 2 * x"
proof -
  have "\<bar>x\<bar> / 2 ^ 53 \<le> \<bar>x\<bar>"
    by (simp add: pos_divide_le_eq)
  with round_binary64_error [of x] have "\<bar>round_binary64 x - x\<bar> \<le> x"
    using assms by linarith
  then show "0 \<le> round_binary64 x" and "round_binary64 x \<le> 2 * x"
    by linarith+
qed

lemma round_half_even_nearest:
  "\<bar>of_int (round_half_even y) - y\<bar> \<le> \<bar>of_int k - y\<bar>"
proof -
  define f where "f = \<lfloor>y\<rfloor>"
  define d where "d = y - of_int f"
  have d: "0 \<le> d" "d < 1"
    unfolding d_def f_def by linarith+
  have r: "round_half_even y = (if d < 1 / 2 then f else if 1 / 2 < d then f + 1 else if even f then f else f + 1)"
    by (simp add: round_half_even_def Let_def f_def d_def)
  have y: "y = of_int f + d"
    by (simp add: d_def)
  have "\<bar>of_int (round_half_even y) - (of_int f + d)\<bar> \<le> d"
    and "\<bar>of_int (round_half_even y) - (of_int f + d)\<bar> \<le> 1 - d"
    using d by (simp_all add: r)
  then have near: "\<bar>of_int (round_half_even y) - y\<bar> \<le> d"
    "\<bar>of_int (round_half_even y) - y\<bar> \<le> 1 - d"
    by (simp_all add: d_def)
  show ?thesis
  proof (cases "k \<le> f")
    case True
    then have "(of_int k :: rat) \<le> of_int f"
      by (simp only: of_int_le_iff)
    with near(1) d y show ?thesis
      by linarith
  next
    case False
    then have "f + 1 \<le> k"
      by simp
    then have "(of_int (f + 1) :: rat) \<le> of_int k"
      by (simp only: of_int_le_iff)
    with near(2) d y show ?thesis
      by simp
  qed
qed

text \<open>The result of \<open>round_binary64\<close> has a significand of at most 53 bits.\<close>

lemma round_binary64_significand:
  "\<exists>m e. \<bar>m\<bar> \<le> 2 ^ 53 \<and> round_binary64 x = of_int m * pow2 e"
proof (cases "x = 0")
  case True
  then have "\<bar>0 :: int\<bar> \<le> 2 ^ 53 \<and> round_binary64 x = of_int 0 * pow2 0"
    by (simp add: round_binary64_def)
  then show ?thesis by blast
next
  case False
  define e where "e = ilog2 \<bar>x\<bar>"
  define y where "y = x * pow2 (52 - e)"
  have "\<bar>x\<bar> < pow2 (e + 1)"
    using ilog2_bounds [of "\<bar>x\<bar>"] False by (simp add: e_def)
  then have "\<bar>x\<bar> * pow2 (52 - e) < pow2 (e + 1) * pow2 (52 - e)"
    using pow2_pos [of "52 - e"] by simp
  moreover have "pow2 (e + 1) * pow2 (52 - e) = 2 ^ 53"
    using pow2_add [of "e + 1" "52 - e"] by (simp add: pow2_def)
  moreover have "\<bar>y\<bar> = \<bar>x\<bar> * pow2 (52 - e)"
    using pow2_pos [of "52 - e"] by (simp add: y_def abs_mult)
  ultimately have y: "\<bar>y\<bar> < 2 ^ 53"
    by simp
  have "\<bar>of_int (round_half_even y) :: rat\<bar> < 2 ^ 53 + 1"
    using round_half_even_bounds [of y] y by linarith
  then have "(of_int \<bar>round_half_even y\<bar> :: rat) < of_int (2 ^ 53 + 1)"
    by simp
  then have "\<bar>round_half_even y\<bar> < 2 ^ 53 + 1"
    by (simp only: of_int_less_iff)
  then have "\<bar>round_half_even y\<bar> \<le> 2 ^ 53"
    by simp
  moreover have "round_binary64 x = of_int (round_half_even y) * pow2 (e - 52)"
    using False by (simp add: round_binary64_def Let_def e_def y_def)
  ultimately show ?thesis
    by blast
qed

text \<open>Rounding a number inside the normal range gives a binary64 number.\<close>

lemma pow2_less_iff: "pow2 a < pow2 b \<longleftrightarrow> a < b"
proof
  assume "pow2 a < pow2 b"
  show "a < b"
  proof (rule ccontr)
    assume "\<not> a < b"
    then have "b \<le> a" by simp
    then have "pow2 b \<le> pow2 a"
      unfolding pow2_powi by (rule power_int_increasing) simp
    with \<open>pow2 a < pow2 b\<close> show False by simp
  qed
next
  assume "a < b"
  then show "pow2 a < pow2 b"
    unfolding pow2_powi by (rule power_int_strict_increasing) simp
qed

lemma ilog2_unique:
  assumes "0 < y" and "pow2 k \<le> y" and "y < pow2 (k + 1)"
  shows "ilog2 y = k"
proof -
  note b = ilog2_bounds [OF assms(1)]
  from b assms(3) have "pow2 (ilog2 y) < pow2 (k + 1)"
    by simp
  then have "ilog2 y < k + 1"
    by (simp only: pow2_less_iff)
  moreover from b assms(2) have "pow2 k < pow2 (ilog2 y + 1)"
    by simp
  then have "k < ilog2 y + 1"
    by (simp only: pow2_less_iff)
  ultimately show ?thesis
    by simp
qed

lemma is_integer_of_int: "is_integer (of_int m)"
  by (simp add: is_integer_def)

lemma round_binary64_is_binary64:
  assumes "0 < x" and "- 1022 \<le> ilog2 x" and "ilog2 x < 1023"
  shows "is_binary64 (round_binary64 x)"
proof -
  define e where "e = ilog2 x"
  define y where "y = x * pow2 (52 - e)"
  define m where "m = round_half_even y"
  have r: "round_binary64 x = of_int m * pow2 (e - 52)"
    using assms(1) by (simp add: round_binary64_def Let_def e_def y_def m_def)
  have b: "pow2 e \<le> x" "x < pow2 (e + 1)"
    using ilog2_bounds [OF assms(1)] by (simp_all add: e_def)
  have "pow2 e * pow2 (52 - e) \<le> y"
    using b(1) pow2_pos [of "52 - e"] by (simp add: y_def)
  moreover have "pow2 e * pow2 (52 - e) = 2 ^ 52"
    using pow2_add [of e "52 - e"] by (simp add: pow2_def)
  ultimately have y_lo: "2 ^ 52 \<le> y"
    by simp
  have "y < pow2 (e + 1) * pow2 (52 - e)"
    using b(2) pow2_pos [of "52 - e"] by (simp add: y_def)
  moreover have "pow2 (e + 1) * pow2 (52 - e) = 2 ^ 53"
    using pow2_add [of "e + 1" "52 - e"] by (simp add: pow2_def)
  ultimately have y_hi: "y < 2 ^ 53"
    by simp
  have "(of_int (2 ^ 52 - 1) :: rat) < of_int m"
    using round_half_even_bounds(1) [of y] y_lo by (simp add: m_def)
  then have "2 ^ 52 - 1 < m"
    by (simp only: of_int_less_iff)
  then have m_lo: "2 ^ 52 \<le> m"
    by simp
  have "(of_int m :: rat) < of_int (2 ^ 53 + 1)"
    using round_half_even_bounds(2) [of y] y_hi by (simp add: m_def)
  then have "m < 2 ^ 53 + 1"
    by (simp only: of_int_less_iff)
  then have m_hi: "m \<le> 2 ^ 53"
    by simp
  have m_lo': "(2 ^ 52 :: rat) \<le> of_int m"
    using m_lo by (metis of_int_le_iff of_int_numeral of_int_power)
  have pos: "0 < round_binary64 x"
    using m_lo' pow2_pos [of "e - 52"] by (simp add: r)
  have e52: "2 ^ 52 * pow2 (e - 52) = pow2 e"
    using pow2_add [of 52 "e - 52"] by (simp add: pow2_def)
  have "pow2 53 = 2 ^ 53"
    by (simp add: pow2_def)
  then have e53: "2 ^ 53 * pow2 (e - 52) = pow2 (e + 1)"
    using pow2_add [of 53 "e - 52"] by (simp add: add.commute)
  have lo: "pow2 e \<le> round_binary64 x"
    using m_lo' pow2_pos [of "e - 52"] unfolding r e52 [symmetric] by simp
  show ?thesis
  proof (cases "m = 2 ^ 53")
    case True
    then have v: "round_binary64 x = pow2 (e + 1)"
      using e53 by (simp add: r)
    have "ilog2 (pow2 (e + 1)) = e + 1"
      by (rule ilog2_unique) (simp_all add: pow2_pos pow2_less_iff)
    moreover have "pow2 (e + 1) * pow2 (52 - (e + 1)) = of_int (2 ^ 52)"
      using pow2_add [of "e + 1" "52 - (e + 1)"] by (simp add: pow2_def)
    then have "is_integer (pow2 (e + 1) * pow2 (52 - (e + 1)))"
      by (simp only: is_integer_of_int)
    ultimately show ?thesis
      using assms(2,3) pow2_pos [of "e + 1"]
      by (simp add: is_binary64_def v Let_def e_def [symmetric])
  next
    case False
    with m_hi have "m < 2 ^ 53"
      by simp
    then have "(of_int m :: rat) < 2 ^ 53"
      by (metis of_int_less_iff of_int_numeral of_int_power)
    then have hi: "round_binary64 x < pow2 (e + 1)"
      using pow2_pos [of "e - 52"] unfolding r e53 [symmetric] by simp
    have i: "ilog2 (round_binary64 x) = e"
      using pos lo hi by (rule ilog2_unique)
    have "round_binary64 x * pow2 (52 - e) = of_int m"
      using pow2_cancel [of e] by (simp add: r mult.assoc mult.commute [of "pow2 (e - 52)"])
    then have "is_integer (round_binary64 x * pow2 (52 - e))"
      by (simp only: is_integer_of_int)
    then show ?thesis
      using assms(2,3) pos by (simp add: is_binary64_def i Let_def e_def [symmetric])
  qed
qed

section \<open>The floats of a cap\<close>

lemma from_wei_exact: "from_wei w * 10 ^ 18 = of_int (uint w)"
  by (simp add: from_wei_def)

lemma from_wei_bounds: "0 \<le> from_wei w" "from_wei w < 2 ^ 256 / 10 ^ 18"
proof -
  have "0 \<le> uint w"
    by simp
  then have "(0::rat) \<le> of_int (uint w)"
    by (simp only: of_int_0_le_iff)
  then show "0 \<le> from_wei w"
    unfolding from_wei_def by (rule divide_nonneg_nonneg) simp
  have "uint w < 2 ^ 256"
    using uint_bounded [of w] by simp
  then have "(of_int (uint w) :: rat) < of_int (2 ^ 256)"
    by (simp only: of_int_less_iff)
  then have "(of_int (uint w) :: rat) < 2 ^ 256"
    by (simp del: of_int_uint)
  then show "from_wei w < 2 ^ 256 / 10 ^ 18"
    unfolding from_wei_def by (rule divide_strict_right_mono) simp
qed

lemma float_of_cap_bounds:
  "0 \<le> float_of_decimal (from_wei w)" "float_of_decimal (from_wei w) < 2 ^ 198"
proof -
  show "0 \<le> float_of_decimal (from_wei w)"
    unfolding float_of_decimal_def by (rule round_binary64_bounds(1) [OF from_wei_bounds(1)])
  have "float_of_decimal (from_wei w) \<le> 2 * from_wei w"
    unfolding float_of_decimal_def by (rule round_binary64_bounds(2) [OF from_wei_bounds(1)])
  also have "\<dots> < 2 * (2 ^ 256 / 10 ^ 18)"
    using from_wei_bounds(2) [of w] by simp
  also have "\<dots> < (2 ^ 198 :: rat)"
    by simp
  finally show "float_of_decimal (from_wei w) < 2 ^ 198" .
qed

lemma float_of_cap_error:
  "\<bar>float_of_decimal (from_wei w) - from_wei w\<bar> \<le> from_wei w / 2 ^ 53"
  using round_binary64_error [of "from_wei w"] from_wei_bounds(1) [of w]
  by (simp add: float_of_decimal_def)

lemma float_of_cap_eq_0_iff: "float_of_decimal (from_wei w) = 0 \<longleftrightarrow> w = 0"
  by (simp add: float_of_decimal_def round_binary64_eq_0_iff from_wei_def unsigned_eq_0_iff)

lemma float_of_cap_is_binary64: "is_binary64 (float_of_decimal (from_wei w))"
proof (cases "w = 0")
  case True
  then show ?thesis
    by (simp add: float_of_cap_eq_0_iff is_binary64_def)
next
  case False
  then have "uint w \<noteq> 0"
    by (simp add: uint_0_iff)
  then have "1 \<le> uint w"
    using uint_ge_0 [of w] by linarith
  then have "(of_int 1 :: rat) \<le> of_int (uint w)"
    by (simp only: of_int_le_iff)
  then have "(1 :: rat) / 10 ^ 18 \<le> of_int (uint w) / 10 ^ 18"
    by (simp del: of_int_uint add: divide_right_mono)
  then have lo: "1 / 10 ^ 18 \<le> from_wei w"
    by (simp only: from_wei_def)
  then have pos: "0 < from_wei w"
    by (rule less_le_trans [rotated]) simp
  note b = ilog2_bounds [OF pos]
  have "pow2 (- 60) < 1 / 10 ^ 18"
    by (simp add: pow2_def)
  with lo b have "pow2 (- 60) < pow2 (ilog2 (from_wei w) + 1)"
    by linarith
  then have e_lo: "- 60 \<le> ilog2 (from_wei w)"
    by (simp add: pow2_less_iff)
  have "(2 :: rat) ^ 256 / 10 ^ 18 < pow2 197"
    by (simp add: pow2_def)
  with from_wei_bounds(2) [of w] b have "pow2 (ilog2 (from_wei w)) < pow2 197"
    by linarith
  then have e_hi: "ilog2 (from_wei w) < 197"
    by (simp only: pow2_less_iff)
  show ?thesis
    unfolding float_of_decimal_def
    using pos e_lo e_hi by (intro round_binary64_is_binary64) simp_all
qed

section \<open>One cycle, branch by branch\<close>

lemma send_webhook_notification_returns: "snd (send_webhook_notification cfg env data) = None"
  by (simp add: send_webhook_notification_def send_webhook_try_def
      split: option.splits post_result.splits py_exception.splits)

lemma send_webhook_notification_no_event:
  "\<not> emits_change_event (fst (send_webhook_notification cfg env data))"
  by (simp add: send_webhook_notification_def send_webhook_try_def emits_change_event_def
      split: option.splits post_result.splits py_exception.splits)

lemma check_read_failed:
  assumes "cap_call env = Raises e"
  shows "check_cap_change cfg env self =
     (self, [Print (ErrorFetchingCap e),
             Print (ErrorLine (now_error env) (Exception ''Unable to retrieve vault cap''))], None)"
  using assms by (simp add: check_cap_change_def check_cap_change_try_def get_current_cap_def)

lemma check_initial:
  assumes "cap_call env = Returns w" and "previous_cap self = None"
  shows "check_cap_change cfg env self =
     (self\<lparr> previous_cap := Some (float_of_decimal (from_wei w)) \<rparr>,
      header env (from_wei w) @ [Print (InitialCap (from_wei w))], None)"
  using assms
  by (simp add: check_cap_change_def check_cap_change_try_def get_current_cap_def header_def)

lemma check_unchanged:
  assumes "cap_call env = Returns w" and "previous_cap self = Some prev"
    and "float_of_decimal (from_wei w) = prev"
  shows "check_cap_change cfg env self = (self, header env (from_wei w), None)"
  using assms
  by (simp add: check_cap_change_def check_cap_change_try_def get_current_cap_def header_def)

lemma check_zero_division:
  assumes "cap_call env = Returns w" and "previous_cap self = Some 0"
    and "float_of_decimal (from_wei w) \<noteq> 0"
  shows "check_cap_change cfg env self =
     (self, header env (from_wei w) @ [Print (ErrorLine (now_error env) ZeroDivisionError)], None)"
  using assms
  by (simp add: check_cap_change_def check_cap_change_try_def get_current_cap_def header_def
      fdiv_def)

lemma check_changed:
  assumes "cap_call env = Returns w" and "previous_cap self = Some prev"
    and "float_of_decimal (from_wei w) \<noteq> prev" and "prev \<noteq> 0"
  shows "check_cap_change cfg env self =
     (self\<lparr> previous_cap := Some (float_of_decimal (from_wei w)) \<rparr>,
      header env (from_wei w) @
      [Print (CapChangeDetected prev (from_wei w)
                (data_change (change_of env (from_wei w) prev))
                (data_change_percent (change_of env (from_wei w) prev))
                (get_total_assets env) (now_check env))] @
      fst (send_webhook_notification cfg env (change_of env (from_wei w) prev)), None)"
proof -
  obtain out where s: "send_webhook_notification cfg env (change_of env (from_wei w) prev) = (out, None)"
    using send_webhook_notification_returns [of cfg env "change_of env (from_wei w) prev"]
    by (cases "send_webhook_notification cfg env (change_of env (from_wei w) prev)") simp
  have s': "send_webhook_notification cfg env
        \<lparr> data_old_cap = prev,
          data_new_cap = float_of_decimal (from_wei w),
          data_change = fsub (float_of_decimal (from_wei w)) prev,
          data_change_percent = fmul (round_binary64 (fsub (float_of_decimal (from_wei w)) prev / prev)) 100,
          data_timestamp = now_check env,
          data_total_assets = get_total_assets env,
          data_max_supply = get_max_token_supply env \<rparr> = (out, None)"
    using s by (simp add: change_of_def)
  show ?thesis
    using assms
    by (simp add: check_cap_change_def check_cap_change_try_def get_current_cap_def header_def
        fdiv_def Let_def s s' change_of_def)
qed

lemma header_no_event: "\<not> emits_change_event (header env c)"
  by (simp add: header_def emits_change_event_def)

lemma emits_change_event_append:
  "emits_change_event (xs @ ys) \<longleftrightarrow> emits_change_event xs \<or> emits_change_event ys"
  by (simp add: emits_change_event_def)

lemma check_cap_change_returns: "snd (snd (check_cap_change cfg env self)) = None"
  by (simp add: check_cap_change_def split: prod.splits option.splits)

lemma cycles_Cons:
  "cycles cfg (env # envs) self =
     (fst (cycles cfg envs (fst (check_cap_change cfg env self))),
      fst (snd (check_cap_change cfg env self)) @
        fst (snd (cycles cfg envs (fst (check_cap_change cfg env self)))),
      snd (snd (cycles cfg envs (fst (check_cap_change cfg env self)))))"
  using check_cap_change_returns [of cfg env self]
  by (cases "check_cap_change cfg env self") (simp split: prod.splits)

lemma cycles_returns: "snd (snd (cycles cfg envs self)) = None"
  by (induction envs arbitrary: self) (simp_all add: cycles_Cons del: cycles.simps(2))

lemma filter_header: "filter is_change_event (header env c) = []"
  by (simp add: header_def)

lemma filter_send_webhook:
  "filter is_change_event (fst (send_webhook_notification cfg env data)) = []"
  by (simp add: send_webhook_notification_def send_webhook_try_def
      split: option.splits post_result.splits py_exception.splits)

lemma emits_change_event_filter:
  "emits_change_event out \<longleftrightarrow> filter is_change_event out \<noteq> []"
  by (simp add: emits_change_event_def list_ex_iff filter_empty_conv)

text \<open>The five branches of a cycle.\<close>

lemma check_cases [case_names read_failed initial unchanged zero_division changed]:
  fixes env :: cycle_env and self :: monitor
  assumes "\<And>e. cap_call env = Raises e \<Longrightarrow> P"
    and "\<And>w. cap_call env = Returns w \<Longrightarrow> previous_cap self = None \<Longrightarrow> P"
    and "\<And>w. cap_call env = Returns w \<Longrightarrow>
           previous_cap self = Some (float_of_decimal (from_wei w)) \<Longrightarrow> P"
    and "\<And>w. cap_call env = Returns w \<Longrightarrow> previous_cap self = Some 0 \<Longrightarrow>
           float_of_decimal (from_wei w) \<noteq> 0 \<Longrightarrow> P"
    and "\<And>w prev. cap_call env = Returns w \<Longrightarrow> previous_cap self = Some prev \<Longrightarrow>
           float_of_decimal (from_wei w) \<noteq> prev \<Longrightarrow> prev \<noteq> 0 \<Longrightarrow> P"
  shows P
proof (cases "cap_call env")
  case (Raises e)
  then show ?thesis by (rule assms(1))
next
  case (Returns w)
  show ?thesis
  proof (cases "previous_cap self")
    case None
    with Returns show ?thesis by (rule assms(2))
  next
    case (Some prev)
    show ?thesis
    proof (cases "float_of_decimal (from_wei w) = prev")
      case True
      with Returns Some show ?thesis by (auto intro: assms(3))
    next
      case False
      with Returns Some show ?thesis
        by (cases "prev = 0") (auto intro: assms(4) assms(5))
    qed
  qed
qed

lemma check_event_count:
  "length (filter is_change_event (fst (snd (check_cap_change cfg env self)))) \<le> 1"
proof (cases rule: check_cases [where env = env and self = self])
  case (read_failed e)
  then show ?thesis by (simp add: check_read_failed)
next
  case (initial w)
  then show ?thesis by (simp add: check_initial filter_header)
next
  case (unchanged w)
  then show ?thesis by (simp add: check_unchanged filter_header)
next
  case (zero_division w)
  then show ?thesis by (simp add: check_zero_division filter_header)
next
  case (changed w prev)
  then show ?thesis by (simp add: check_changed filter_header filter_send_webhook)
qed

lemma check_event_iff:
  "emits_change_event (fst (snd (check_cap_change cfg env self))) \<longleftrightarrow>
     (\<exists>w prev. cap_call env = Returns w \<and> previous_cap self = Some prev \<and>
        float_of_decimal (from_wei w) \<noteq> prev \<and> prev \<noteq> 0)"
proof (cases rule: check_cases [where env = env and self = self])
  case (read_failed e)
  then show ?thesis by (simp add: check_read_failed emits_change_event_filter)
next
  case (initial w)
  then show ?thesis by (simp add: check_initial emits_change_event_filter filter_header)
next
  case (unchanged w)
  then show ?thesis by (simp add: check_unchanged emits_change_event_filter filter_header)
next
  case (zero_division w)
  then show ?thesis by (simp add: check_zero_division emits_change_event_filter filter_header)
next
  case (changed w prev)
  then show ?thesis
    by (simp add: check_changed emits_change_event_filter filter_header filter_send_webhook)
qed

lemma check_state:
  "fst (check_cap_change cfg env self) =
     (case cap_call env of
        Raises e \<Rightarrow> self
      | Returns w \<Rightarrow>
          (case previous_cap self of
             None \<Rightarrow> self\<lparr> previous_cap := Some (float_of_decimal (from_wei w)) \<rparr>
           | Some prev \<Rightarrow>
               if float_of_decimal (from_wei w) \<noteq> prev \<and> prev \<noteq> 0
               then self\<lparr> previous_cap := Some (float_of_decimal (from_wei w)) \<rparr>
               else self))"
proof (cases rule: check_cases [where env = env and self = self])
  case (read_failed e)
  then show ?thesis by (simp add: check_read_failed)
next
  case (initial w)
  then show ?thesis by (simp add: check_initial)
next
  case (unchanged w)
  then show ?thesis by (simp add: check_unchanged)
next
  case (zero_division w)
  then show ?thesis by (simp add: check_zero_division)
next
  case (changed w prev)
  then show ?thesis by (simp add: check_changed)
qed

section \<open>Cycles in sequence\<close>

lemma case_send_webhook_notification:
  "(case send_webhook_notification cfg env data of
      (out, None) \<Rightarrow> f out
    | (out, Some e) \<Rightarrow> g out e) = f (fst (send_webhook_notification cfg env data))"
  using send_webhook_notification_returns [of cfg env data]
  by (cases "send_webhook_notification cfg env data") simp

lemma check_try_exception:
  "snd (snd (check_cap_change_try cfg env self)) =
     (case cap_call env of
        Raises e \<Rightarrow> Some (Exception ''Unable to retrieve vault cap'')
      | Returns w \<Rightarrow>
          (case previous_cap self of
             None \<Rightarrow> None
           | Some prev \<Rightarrow>
               if float_of_decimal (from_wei w) \<noteq> prev \<and> prev = 0
               then Some ZeroDivisionError else None))"
  by (simp add: check_cap_change_try_def get_current_cap_def Let_def fdiv_def
      case_send_webhook_notification split: call_result.splits option.splits)

lemma check_quiet:
  fixes self :: monitor
  assumes "cap_call env = Returns v"
    and "previous_cap self = Some (float_of_decimal (from_wei v)) \<or> previous_cap self = Some 0"
  shows "fst (check_cap_change cfg env self) = self"
    and "\<not> emits_change_event (fst (snd (check_cap_change cfg env self)))"
  using assms by (auto simp: check_state check_event_iff)

lemma check_settles:
  fixes self :: monitor
  assumes "cap_call env = Returns v"
  shows "previous_cap (fst (check_cap_change cfg env self)) = Some (float_of_decimal (from_wei v))
       \<or> previous_cap (fst (check_cap_change cfg env self)) = Some 0"
  using assms by (auto simp: check_state split: option.splits)

lemma cycles_quiet:
  fixes self :: monitor
  assumes "\<forall>env \<in> set envs. cap_call env = Returns v"
    and "previous_cap self = Some (float_of_decimal (from_wei v)) \<or> previous_cap self = Some 0"
  shows "fst (cycles cfg envs self) = self
       \<and> \<not> emits_change_event (fst (snd (cycles cfg envs self)))"
  using assms
proof (induction envs)
  case Nil
  then show ?case by (simp add: emits_change_event_def)
next
  case (Cons env envs)
  then have env: "cap_call env = Returns v"
    by simp
  note q = check_quiet [OF env Cons.prems(2), of cfg]
  from Cons have "fst (cycles cfg envs self) = self
       \<and> \<not> emits_change_event (fst (snd (cycles cfg envs self)))"
    by simp
  with q show ?case
    by (simp add: cycles_Cons emits_change_event_append del: cycles.simps(2))
qed

lemma check_keeps_shape:
  fixes self :: monitor
  assumes "case previous_cap self of None \<Rightarrow> True
           | Some x \<Rightarrow> \<exists>w. x = float_of_decimal (from_wei w)"
  shows "case previous_cap (fst (check_cap_change cfg env self)) of None \<Rightarrow> True
         | Some x \<Rightarrow> \<exists>w. x = float_of_decimal (from_wei w)"
  using assms by (auto simp: check_state split: call_result.splits option.splits)

lemma cycles_keep_shape:
  fixes self :: monitor
  assumes "case previous_cap self of None \<Rightarrow> True
           | Some x \<Rightarrow> \<exists>w. x = float_of_decimal (from_wei w)"
  shows "case previous_cap (fst (cycles cfg envs self)) of None \<Rightarrow> True
         | Some x \<Rightarrow> \<exists>w. x = float_of_decimal (from_wei w)"
  using assms
proof (induction envs arbitrary: self)
  case Nil
  then show ?case by simp
next
  case (Cons env envs)
  from Cons.IH [OF check_keeps_shape [OF Cons.prems, of cfg env]] show ?case
    by (simp add: cycles_Cons del: cycles.simps(2))
qed

lemma check_state_independent:
  "fst (check_cap_change cfg' (env\<lparr> assets_call := a, supply_call := s, post := p \<rparr>) self)
     = fst (check_cap_change cfg env self)"
  by (simp add: check_state)

lemma check_changes_state:
  fixes self :: monitor
  assumes "fst (check_cap_change cfg env self) \<noteq> self"
  shows "\<exists>w. cap_call env = Returns w
           \<and> fst (check_cap_change cfg env self)
               = self\<lparr> previous_cap := Some (float_of_decimal (from_wei w)) \<rparr>
           \<and> (previous_cap self = None
                \<and> Print (InitialCap (from_wei w)) \<in> set (fst (snd (check_cap_change cfg env self)))
              \<or> emits_change_event (fst (snd (check_cap_change cfg env self))))"
proof (cases rule: check_cases [where env = env and self = self])
  case (read_failed e)
  with assms show ?thesis by (simp add: check_read_failed)
next
  case (initial w)
  then show ?thesis by (simp add: check_initial)
next
  case (unchanged w)
  with assms show ?thesis by (simp add: check_unchanged)
next
  case (zero_division w)
  with assms show ?thesis by (simp add: check_zero_division)
next
  case (changed w prev)
  then show ?thesis by (simp add: check_state check_event_iff)
qed

lemma monitor_update_neq:
  fixes self :: monitor
  assumes "previous_cap self \<noteq> Some v"
  shows "self\<lparr> previous_cap := Some v \<rparr> \<noteq> self"
proof
  assume "self\<lparr> previous_cap := Some v \<rparr> = self"
  then have "previous_cap (self\<lparr> previous_cap := Some v \<rparr>) = previous_cap self"
    by simp
  with assms show False by simp
qed

lemma check_changes_state_iff:
  fixes self :: monitor
  shows "fst (check_cap_change cfg env self) \<noteq> self \<longleftrightarrow>
     (\<exists>w. cap_call env = Returns w)
     \<and> (previous_cap self = None \<or> emits_change_event (fst (snd (check_cap_change cfg env self))))"
proof (cases rule: check_cases [where env = env and self = self])
  case (read_failed e)
  then show ?thesis by (simp add: check_state)
next
  case (initial w)
  then show ?thesis by (simp add: check_state monitor_update_neq)
next
  case (unchanged w)
  then show ?thesis by (simp add: check_state check_event_iff)
next
  case (zero_division w)
  then show ?thesis by (simp add: check_state check_event_iff)
next
  case (changed w prev)
  then show ?thesis by (simp add: check_state check_event_iff monitor_update_neq)
qed

text \<open>Away from the cap 0, a cycle leaves the float of its sample in the state, and the
  next cycle emits a ChangeEvent exactly when the float of its own sample differs.\<close>

lemma check_tracks_sample:
  fixes self :: monitor
  assumes "cap_call env = Returns w" and "w \<noteq> 0" and "previous_cap self \<noteq> Some 0"
  shows "previous_cap (fst (check_cap_change cfg env self)) = Some (float_of_decimal (from_wei w))"
  using assms by (auto simp: check_state float_of_cap_eq_0_iff split: option.splits)

lemma nonzero_caps_event_iff:
  fixes self :: monitor
  assumes "cap_call env = Returns w" and "w \<noteq> 0" and "previous_cap self \<noteq> Some 0"
    and "cap_call env' = Returns w'"
  shows "emits_change_event
           (fst (snd (check_cap_change cfg env' (fst (check_cap_change cfg env self)))))
         \<longleftrightarrow> float_of_decimal (from_wei w') \<noteq> float_of_decimal (from_wei w)"
  using check_tracks_sample [OF assms(1-3), of cfg] assms(2,4)
  by (simp add: check_event_iff float_of_cap_eq_0_iff)

section \<open>The claims\<close>

text \<open>
  C1, at the samples 0 and 50 from the start: the second sample differs from the first
  under the comparison of the program, the two cycles emit no ChangeEvent, and the stored
  cap is still 0 after them.
\<close>

theorem change_after_zero_cap_not_reported:
  "float_of_decimal (from_wei (50 * 10 ^ 18)) \<noteq> float_of_decimal (from_wei 0)
   \<and> \<not> emits_change_event
         (fst (snd (cycles CONFIG [env_of_cap 0, env_of_cap (50 * 10 ^ 18)]
                      \<lparr> previous_cap = None \<rparr>)))
   \<and> fst (cycles CONFIG [env_of_cap 0, env_of_cap (50 * 10 ^ 18)] \<lparr> previous_cap = None \<rparr>)
       = \<lparr> previous_cap = Some 0 \<rparr>"
  by code_simp

text \<open>
  C2, at the stored cap 0 and the new cap 50. The division of line 142 raises
  \<^verbatim>\<open>ZeroDivisionError\<close>: the cycle prints the error line, emits no ChangeEvent and leaves
  the stored cap at 0.
\<close>

theorem zero_old_cap_raises:
  "check_cap_change CONFIG (env_of_cap (50 * 10 ^ 18)) \<lparr> previous_cap = Some 0 \<rparr> =
     (\<lparr> previous_cap = Some 0 \<rparr>,
      [Print (Checking ''03/11/2026 12:00:00''), Print (MaxDepositCap 50),
       Print (TotalAssets NA), Print (MaxTokenSupply NA),
       Print (ErrorLine ''03/11/2026 12:00:01'' ZeroDivisionError)],
      None)"
  by code_simp

text \<open>
  C3, as stated, at the caps \<open>10^6\<close> and \<open>10^6 + 10^-18\<close>. They differ by one unit of the
  last decimal place; both convert to the float \<open>1000000.0\<close>, and the cycle that samples the
  second after the first emits no ChangeEvent.
\<close>

theorem one_unit_apart_not_changed:
  "from_wei (10 ^ 24 + 1) - from_wei (10 ^ 24) = 1 / 10 ^ 18
   \<and> check_cap_change CONFIG (env_of_cap (10 ^ 24)) \<lparr> previous_cap = None \<rparr> =
       (\<lparr> previous_cap = Some 1000000 \<rparr>,
        [Print (Checking ''03/11/2026 12:00:00''), Print (MaxDepositCap 1000000),
         Print (TotalAssets NA), Print (MaxTokenSupply NA), Print (InitialCap 1000000)],
        None)
   \<and> \<not> emits_change_event
         (fst (snd (check_cap_change CONFIG (env_of_cap (10 ^ 24 + 1))
                      \<lparr> previous_cap = Some 1000000 \<rparr>)))"
  by code_simp

text \<open>
  C3, amended. The decision compares the float of the new cap with the stored float, by
  equality and with no tolerance: with a stored cap other than 0, the cycle emits a
  ChangeEvent exactly when the two floats differ.
\<close>

theorem change_decision_compares_floats:
  fixes self :: monitor
  assumes "cap_call env = Returns w" and "previous_cap self = Some prev" and "prev \<noteq> 0"
  shows "emits_change_event (fst (snd (check_cap_change cfg env self)))
           \<longleftrightarrow> float_of_decimal (from_wei w) \<noteq> prev"
  using assms by (simp add: check_event_iff)

theorem change_decision_compares_floats_witness:
  "cap_call (env_of_cap (150 * 10 ^ 18)) = Returns (150 * 10 ^ 18)
   \<and> previous_cap \<lparr> previous_cap = Some 100 \<rparr> = Some 100
   \<and> (100 :: pyfloat) \<noteq> 0
   \<and> float_of_decimal (from_wei (150 * 10 ^ 18)) \<noteq> 100
   \<and> emits_change_event
        (fst (snd (check_cap_change CONFIG (env_of_cap (150 * 10 ^ 18))
                     \<lparr> previous_cap = Some 100 \<rparr>)))"
proof -
  have h1: "cap_call (env_of_cap (150 * 10 ^ 18)) = Returns (150 * 10 ^ 18)"
    by (simp add: env_of_cap_def)
  have h2: "previous_cap \<lparr> previous_cap = Some 100 \<rparr> = Some 100"
    by simp
  have h3: "(100 :: pyfloat) \<noteq> 0"
    by simp
  have f: "float_of_decimal (from_wei (150 * 10 ^ 18)) \<noteq> 100"
    by code_simp
  show ?thesis
    using change_decision_compares_floats [OF h1 h2 h3, of CONFIG] h1 f by simp
qed

text \<open>
  C4, as stated, at the cap \<open>10^6 + 10^-18\<close>, which needs 25 significant digits: the value
  stored by the first cycle is not the decimal value.
\<close>

theorem stored_cap_loses_precision:
  "previous_cap (fst (check_cap_change CONFIG (env_of_cap (10 ^ 24 + 1))
                        \<lparr> previous_cap = None \<rparr>))
     \<noteq> Some (from_wei (10 ^ 24 + 1))"
  by code_simp

text \<open>
  C4, amended. The conversion of the 256-bit value to a decimal is exact. A cycle that
  changes the stored cap stores the float of the decimal, whose distance from the decimal is
  at most the decimal times \<open>2^-53\<close>; the delta and the percent of a ChangeEvent are computed
  in floats from that float and the stored one.
\<close>

theorem decimal_exact_state_float:
  fixes self :: monitor
  assumes "cap_call env = Returns w"
  shows "from_wei w * 10 ^ 18 = of_int (uint w)
       \<and> (fst (check_cap_change cfg env self) = self
            \<or> previous_cap (fst (check_cap_change cfg env self))
                 = Some (float_of_decimal (from_wei w)))
       \<and> \<bar>float_of_decimal (from_wei w) - from_wei w\<bar> \<le> from_wei w / 2 ^ 53
       \<and> (\<forall>old new c p a t.
             Print (CapChangeDetected old new c p a t)
               \<in> set (fst (snd (check_cap_change cfg env self)))
             \<longrightarrow> previous_cap self = Some old \<and> new = from_wei w
                 \<and> c = fsub (float_of_decimal (from_wei w)) old
                 \<and> p = fmul (round_binary64 (c / old)) 100)"
proof -
  have state: "fst (check_cap_change cfg env self) = self
      \<or> previous_cap (fst (check_cap_change cfg env self)) = Some (float_of_decimal (from_wei w))"
    using assms by (simp add: check_state split: option.splits)
  have block: "previous_cap self = Some old \<and> new = from_wei w
         \<and> c = fsub (float_of_decimal (from_wei w)) old
         \<and> p = fmul (round_binary64 (c / old)) 100"
    if "Print (CapChangeDetected old new c p a t) \<in> set (fst (snd (check_cap_change cfg env self)))"
    for old new c p a t
  proof (cases rule: check_cases [where env = env and self = self])
    case (read_failed e)
    with assms show ?thesis by simp
  next
    case (initial w')
    with that show ?thesis
      by (auto simp: check_initial header_def)
  next
    case (unchanged w')
    with that show ?thesis
      by (auto simp: check_unchanged header_def)
  next
    case (zero_division w')
    with that show ?thesis
      by (auto simp: check_zero_division header_def)
  next
    case (changed w' prev)
    have "Print (CapChangeDetected old new c p a t)
        \<notin> set (fst (send_webhook_notification cfg env (change_of env (from_wei w') prev)))"
      by (simp add: send_webhook_notification_def send_webhook_try_def
          split: option.splits post_result.splits py_exception.splits)
    with that changed assms show ?thesis
      by (auto simp: check_changed header_def change_of_def)
  qed
  show ?thesis
    using from_wei_exact [of w] state float_of_cap_error [of w] block by blast
qed

theorem decimal_exact_state_float_witness:
  "cap_call (env_of_cap (10 ^ 24 + 1)) = Returns (10 ^ 24 + 1)
   \<and> from_wei (10 ^ 24 + 1) * 10 ^ 18 = of_int (uint (10 ^ 24 + 1 :: uint256))
   \<and> \<bar>float_of_decimal (from_wei (10 ^ 24 + 1)) - from_wei (10 ^ 24 + 1)\<bar>
        \<le> from_wei (10 ^ 24 + 1) / 2 ^ 53"
proof -
  have h: "cap_call (env_of_cap (10 ^ 24 + 1)) = Returns (10 ^ 24 + 1)"
    by (simp add: env_of_cap_def)
  show ?thesis
    using decimal_exact_state_float [OF h, of CONFIG "\<lparr> previous_cap = None \<rparr>"] h by blast
qed

text \<open>
  C5. When the read of the deposit cap fails, the cycle emits no ChangeEvent, prints the
  error with a timestamp, leaves the monitor as it was, and lets no exception out; the loop
  goes on with the next tick from the same state.
\<close>

theorem read_failure_aborts_cycle_only:
  assumes "cap_call env = Raises e"
  shows "check_cap_change cfg env self =
           (self, [Print (ErrorFetchingCap e),
                   Print (ErrorLine (now_error env) (Exception ''Unable to retrieve vault cap''))],
            None)
       \<and> \<not> emits_change_event (fst (snd (check_cap_change cfg env self)))
       \<and> cycles cfg (env # envs) self =
           (fst (cycles cfg envs self),
            [Print (ErrorFetchingCap e),
             Print (ErrorLine (now_error env) (Exception ''Unable to retrieve vault cap''))]
              @ fst (snd (cycles cfg envs self)),
            None)"
proof -
  have c: "check_cap_change cfg env self =
           (self, [Print (ErrorFetchingCap e),
                   Print (ErrorLine (now_error env) (Exception ''Unable to retrieve vault cap''))],
            None)"
    using assms by (rule check_read_failed)
  have "\<not> emits_change_event (fst (snd (check_cap_change cfg env self)))"
    by (simp add: c emits_change_event_def)
  moreover have "cycles cfg (env # envs) self =
           (fst (cycles cfg envs self),
            [Print (ErrorFetchingCap e),
             Print (ErrorLine (now_error env) (Exception ''Unable to retrieve vault cap''))]
              @ fst (snd (cycles cfg envs self)),
            None)"
    by (simp add: cycles_Cons c cycles_returns del: cycles.simps(2))
  ultimately show ?thesis
    using c by simp
qed

theorem read_failure_aborts_cycle_only_witness:
  "cap_call ((env_of_cap 1)\<lparr> cap_call := Raises ''timeout'' \<rparr>) = Raises ''timeout''
   \<and> check_cap_change CONFIG ((env_of_cap 1)\<lparr> cap_call := Raises ''timeout'' \<rparr>)
         \<lparr> previous_cap = Some 100 \<rparr> =
       (\<lparr> previous_cap = Some 100 \<rparr>,
        [Print (ErrorFetchingCap ''timeout''),
         Print (ErrorLine ''03/11/2026 12:00:01'' (Exception ''Unable to retrieve vault cap''))],
        None)"
proof -
  have h: "cap_call ((env_of_cap 1)\<lparr> cap_call := Raises ''timeout'' \<rparr>) = Raises ''timeout''"
    by simp
  show ?thesis
    using h read_failure_aborts_cycle_only [OF h, of CONFIG "\<lparr> previous_cap = Some 100 \<rparr>" "[]"]
    by (simp add: env_of_cap_def)
qed






text \<open>
  C8, as stated, at a failed connection check: \<^verbatim>\<open>main\<close> returns, and the exit status of
  the process is 0.
\<close>

theorem connection_failure_exit_status:
  "exit_status (snd (main CONFIG False [env_of_cap (10 ^ 24)])) = Some 0"
  by code_simp

text \<open>
  C8, amended. When the connection check of the constructor fails, \<^verbatim>\<open>main\<close> prints the
  fatal error and returns: no cycle runs, whatever ticks would follow, and the process ends
  at once with exit status 0.
\<close>

theorem connection_failure_ends_main:
  "main cfg False envs =
     ([Print (FatalError (Exception ''Unable to connect to HyperEVM RPC''))], Returned)
   \<and> exit_status (snd (main cfg False envs)) = Some 0"
  by (simp add: main_def init_def exit_status_def)

text \<open>
  C9. Let consecutive cycles sample the same cap \<open>v\<close>, from any state. All their output
  holds at most one ChangeEvent, and the cycles after the first leave the state as the first
  left it and emit no ChangeEvent.
\<close>

theorem repeated_cap_at_most_one_event:
  fixes self :: monitor
  assumes "cap_call env = Returns v" and "\<forall>e \<in> set envs. cap_call e = Returns v"
  shows "length (filter is_change_event (fst (snd (cycles cfg (env # envs) self)))) \<le> 1
       \<and> fst (cycles cfg envs (fst (check_cap_change cfg env self)))
           = fst (check_cap_change cfg env self)
       \<and> \<not> emits_change_event
             (fst (snd (cycles cfg envs (fst (check_cap_change cfg env self)))))"
proof -
  note rest = cycles_quiet [OF assms(2) check_settles [OF assms(1), of cfg self], of cfg]
  then have "filter is_change_event
      (fst (snd (cycles cfg envs (fst (check_cap_change cfg env self))))) = []"
    by (simp add: emits_change_event_filter)
  then have "length (filter is_change_event (fst (snd (cycles cfg (env # envs) self)))) \<le> 1"
    using check_event_count [of cfg env self]
    by (simp add: cycles_Cons del: cycles.simps(2))
  with rest show ?thesis
    by simp
qed

theorem repeated_cap_at_most_one_event_witness:
  "cap_call (env_of_cap (150 * 10 ^ 18)) = Returns (150 * 10 ^ 18)
   \<and> length (filter is_change_event
        (fst (snd (cycles CONFIG
           [env_of_cap (150 * 10 ^ 18), env_of_cap (150 * 10 ^ 18), env_of_cap (150 * 10 ^ 18)]
           \<lparr> previous_cap = Some 100 \<rparr>)))) \<le> 1
   \<and> fst (cycles CONFIG [env_of_cap (150 * 10 ^ 18), env_of_cap (150 * 10 ^ 18)]
            (fst (check_cap_change CONFIG (env_of_cap (150 * 10 ^ 18)) \<lparr> previous_cap = Some 100 \<rparr>)))
       = fst (check_cap_change CONFIG (env_of_cap (150 * 10 ^ 18)) \<lparr> previous_cap = Some 100 \<rparr>)
   \<and> emits_change_event
        (fst (snd (check_cap_change CONFIG (env_of_cap (150 * 10 ^ 18)) \<lparr> previous_cap = Some 100 \<rparr>)))"
proof -
  have h1: "cap_call (env_of_cap (150 * 10 ^ 18)) = Returns (150 * 10 ^ 18)"
    by (simp add: env_of_cap_def)
  then have h2: "\<forall>e \<in> set [env_of_cap (150 * 10 ^ 18), env_of_cap (150 * 10 ^ 18)].
      cap_call e = Returns (150 * 10 ^ 18)"
    by simp
  have e: "emits_change_event
        (fst (snd (check_cap_change CONFIG (env_of_cap (150 * 10 ^ 18)) \<lparr> previous_cap = Some 100 \<rparr>)))"
    by code_simp
  show ?thesis
    using repeated_cap_at_most_one_event [OF h1 h2, of CONFIG "\<lparr> previous_cap = Some 100 \<rparr>"] h1 e
    by simp
qed

text \<open>
  C10. \<open>previous_cap\<close> is \<open>None\<close> after the constructor, and a cycle never sets it back to
  \<open>None\<close>. The first successful cycle stores the float of its cap, and a cycle that emits a
  ChangeEvent stores the float of the new cap; a cycle changes the monitor in these two
  branches and in no other. A cycle whose body raised, the optional reads, the request of
  the webhook and the configuration do not change it. From the constructed monitor on it
  is \<open>None\<close> or a finite binary64 number: the float of a sampled cap, between 0 and \<open>2^198\<close>.
\<close>

theorem previous_cap_shape:
  fixes self :: monitor
  shows "init True = ([Print Connected], Inr \<lparr> previous_cap = None \<rparr>)
       \<and> (previous_cap self \<noteq> None \<longrightarrow> previous_cap (fst (check_cap_change cfg env self)) \<noteq> None)
       \<and> (cap_call env = Returns w \<and> previous_cap self = None \<longrightarrow>
            check_cap_change cfg env self =
              (self\<lparr> previous_cap := Some (float_of_decimal (from_wei w)) \<rparr>,
               header env (from_wei w) @ [Print (InitialCap (from_wei w))], None))
       \<and> (emits_change_event (fst (snd (check_cap_change cfg env self))) \<longrightarrow>
            (\<exists>w. cap_call env = Returns w
               \<and> previous_cap self \<noteq> Some (float_of_decimal (from_wei w))
               \<and> fst (check_cap_change cfg env self)
                   = self\<lparr> previous_cap := Some (float_of_decimal (from_wei w)) \<rparr>))
       \<and> (fst (check_cap_change cfg env self) \<noteq> self \<longleftrightarrow>
            (\<exists>w. cap_call env = Returns w)
            \<and> (previous_cap self = None
                 \<or> emits_change_event (fst (snd (check_cap_change cfg env self)))))
       \<and> (fst (check_cap_change cfg env self) \<noteq> self \<longrightarrow>
            (\<exists>w. cap_call env = Returns w
               \<and> fst (check_cap_change cfg env self)
                   = self\<lparr> previous_cap := Some (float_of_decimal (from_wei w)) \<rparr>
               \<and> (previous_cap self = None
                    \<and> Print (InitialCap (from_wei w))
                         \<in> set (fst (snd (check_cap_change cfg env self)))
                  \<or> emits_change_event (fst (snd (check_cap_change cfg env self))))))
       \<and> (snd (snd (check_cap_change_try cfg env self)) \<noteq> None \<longrightarrow>
            fst (check_cap_change cfg env self) = self)
       \<and> fst (check_cap_change cfg' (env\<lparr> assets_call := a, supply_call := s, post := p \<rparr>) self)
           = fst (check_cap_change cfg env self)
       \<and> (case previous_cap (fst (cycles cfg envs \<lparr> previous_cap = None \<rparr>)) of
            None \<Rightarrow> True
          | Some x \<Rightarrow> is_binary64 x \<and> (\<exists>w. x = float_of_decimal (from_wei w))
                       \<and> 0 \<le> x \<and> x < 2 ^ 198)"
proof -
  have never_none: "previous_cap (fst (check_cap_change cfg env self)) \<noteq> None"
    if "previous_cap self \<noteq> None"
    using that by (auto simp: check_state split: call_result.splits)
  have first: "check_cap_change cfg env self =
              (self\<lparr> previous_cap := Some (float_of_decimal (from_wei w)) \<rparr>,
               header env (from_wei w) @ [Print (InitialCap (from_wei w))], None)"
    if "cap_call env = Returns w" and "previous_cap self = None"
    using that by (rule check_initial)
  have commit: "\<exists>w. cap_call env = Returns w
               \<and> previous_cap self \<noteq> Some (float_of_decimal (from_wei w))
               \<and> fst (check_cap_change cfg env self)
                   = self\<lparr> previous_cap := Some (float_of_decimal (from_wei w)) \<rparr>"
    if "emits_change_event (fst (snd (check_cap_change cfg env self)))"
  proof -
    from that obtain w prev where "cap_call env = Returns w" and "previous_cap self = Some prev"
      and "float_of_decimal (from_wei w) \<noteq> prev" and "prev \<noteq> 0"
      unfolding check_event_iff by blast
    then show ?thesis
      by (auto simp: check_state)
  qed
  have failed: "fst (check_cap_change cfg env self) = self"
    if "snd (snd (check_cap_change_try cfg env self)) \<noteq> None"
    using that
    by (auto simp: check_state check_try_exception
        split: call_result.splits option.splits if_splits)
  have reach: "case previous_cap (fst (cycles cfg envs \<lparr> previous_cap = None \<rparr>)) of
            None \<Rightarrow> True
          | Some x \<Rightarrow> is_binary64 x \<and> (\<exists>w. x = float_of_decimal (from_wei w))
                       \<and> 0 \<le> x \<and> x < 2 ^ 198"
  proof (cases "previous_cap (fst (cycles cfg envs \<lparr> previous_cap = None \<rparr>))")
    case None
    then show ?thesis by simp
  next
    case (Some x)
    with cycles_keep_shape [of "\<lparr> previous_cap = None \<rparr>" cfg envs]
    obtain w where "x = float_of_decimal (from_wei w)"
      by auto
    with float_of_cap_bounds [of w] float_of_cap_is_binary64 [of w] show ?thesis
      unfolding Some option.case by blast
  qed
  have "init True = ([Print Connected], Inr \<lparr> previous_cap = None \<rparr>)"
    by (simp add: init_def)
  with never_none first commit failed reach
    check_changes_state_iff [of cfg env self] check_changes_state [of cfg env self]
    check_state_independent [where cfg' = cfg' and env = env and a = a and s = s and p = p
      and self = self and cfg = cfg]
  show ?thesis
    by blast
qed

theorem previous_cap_shape_witness:
  "cap_call (env_of_cap 1000000000000000000000000) = Returns 1000000000000000000000000
   \<and> previous_cap \<lparr> previous_cap = None \<rparr> = None
   \<and> check_cap_change CONFIG (env_of_cap 1000000000000000000000000) \<lparr> previous_cap = None \<rparr> =
       (\<lparr> previous_cap = Some 1000000 \<rparr>,
        [Print (Checking ''03/11/2026 12:00:00''), Print (MaxDepositCap 1000000),
         Print (TotalAssets NA), Print (MaxTokenSupply NA), Print (InitialCap 1000000)],
        None)
   \<and> is_binary64 1000000
   \<and> \<not> is_binary64 (from_wei 1000000000000000000000001)
   \<and> previous_cap \<lparr> previous_cap = Some 100 \<rparr> \<noteq> None
   \<and> emits_change_event
        (fst (snd (check_cap_change CONFIG (env_of_cap 150000000000000000000)
                     \<lparr> previous_cap = Some 100 \<rparr>)))
   \<and> fst (check_cap_change CONFIG (env_of_cap 150000000000000000000) \<lparr> previous_cap = Some 100 \<rparr>)
       = \<lparr> previous_cap = Some 150 \<rparr>
   \<and> snd (snd (check_cap_change_try CONFIG (env_of_cap 50000000000000000000)
                  \<lparr> previous_cap = Some 0 \<rparr>)) \<noteq> None
   \<and> fst (check_cap_change CONFIG (env_of_cap 50000000000000000000) \<lparr> previous_cap = Some 0 \<rparr>)
       = \<lparr> previous_cap = Some 0 \<rparr>"
proof -
  let ?e1 = "env_of_cap 1000000000000000000000000"
  let ?e2 = "env_of_cap 150000000000000000000"
  let ?e3 = "env_of_cap 50000000000000000000"
  have c1: "cap_call ?e1 = Returns 1000000000000000000000000"
    and c2: "cap_call ?e2 = Returns 150000000000000000000"
    by (simp_all add: env_of_cap_def)
  have n: "previous_cap \<lparr> previous_cap = None \<rparr> = None"
    by simp
  have f1: "float_of_decimal (from_wei 1000000000000000000000000) = 1000000"
    and d1: "from_wei 1000000000000000000000000 = 1000000"
    and f1': "float_of_decimal 1000000 = 1000000"
    and f2': "float_of_decimal 150 = 150"
    and d2: "from_wei 150000000000000000000 = 150"
    and f2: "float_of_decimal (from_wei 150000000000000000000) = 150"
    and nb: "\<not> is_binary64 (from_wei 1000000000000000000000001)"
    by code_simp+
  have h: "header ?e1 1000000 =
      [Print (Checking ''03/11/2026 12:00:00''), Print (MaxDepositCap 1000000),
       Print (TotalAssets NA), Print (MaxTokenSupply NA)]"
    by (simp add: header_def env_of_cap_def get_total_assets_def get_max_token_supply_def)
  have e: "emits_change_event
        (fst (snd (check_cap_change CONFIG ?e2 \<lparr> previous_cap = Some 100 \<rparr>)))"
    by code_simp
  have x: "snd (snd (check_cap_change_try CONFIG ?e3 \<lparr> previous_cap = Some 0 \<rparr>)) \<noteq> None"
    by code_simp
  note T1 = previous_cap_shape [where self = "\<lparr> previous_cap = None \<rparr>" and cfg = CONFIG
      and env = ?e1 and w = 1000000000000000000000000 and envs = "[?e1]"]
  note T2 = previous_cap_shape [where self = "\<lparr> previous_cap = Some 100 \<rparr>" and cfg = CONFIG
      and env = ?e2]
  note T3 = previous_cap_shape [where self = "\<lparr> previous_cap = Some 0 \<rparr>" and cfg = CONFIG
      and env = ?e3]
  note c23 = conjunct2 [THEN conjunct2]
  note c26 = c23 [THEN c23, THEN c23]
  have "check_cap_change CONFIG ?e1 \<lparr> previous_cap = None \<rparr> =
       (\<lparr> previous_cap = None \<rparr>\<lparr> previous_cap :=
            Some (float_of_decimal (from_wei 1000000000000000000000000)) \<rparr>,
        header ?e1 (from_wei 1000000000000000000000000)
          @ [Print (InitialCap (from_wei 1000000000000000000000000))], None)"
    by (rule T1 [THEN c23, THEN conjunct1, THEN mp, OF conjI [OF c1 n]])
  then have first: "check_cap_change CONFIG ?e1 \<lparr> previous_cap = None \<rparr> =
       (\<lparr> previous_cap = Some 1000000 \<rparr>,
        [Print (Checking ''03/11/2026 12:00:00''), Print (MaxDepositCap 1000000),
         Print (TotalAssets NA), Print (MaxTokenSupply NA), Print (InitialCap 1000000)],
        None)"
    by (simp add: f1 f1' d1 h)
  then have s1: "previous_cap (fst (cycles CONFIG [?e1] \<lparr> previous_cap = None \<rparr>)) = Some 1000000"
    by simp
  have "case previous_cap (fst (cycles CONFIG [?e1] \<lparr> previous_cap = None \<rparr>)) of
            None \<Rightarrow> True
          | Some x \<Rightarrow> is_binary64 x \<and> (\<exists>w. x = float_of_decimal (from_wei w))
                       \<and> 0 \<le> x \<and> x < 2 ^ 198"
    by (rule T1 [THEN c26, THEN c23])
  then have b: "is_binary64 1000000"
    unfolding s1 option.case by (rule conjunct1)
  have "\<exists>w. cap_call ?e2 = Returns w
               \<and> previous_cap \<lparr> previous_cap = Some 100 \<rparr> \<noteq> Some (float_of_decimal (from_wei w))
               \<and> fst (check_cap_change CONFIG ?e2 \<lparr> previous_cap = Some 100 \<rparr>)
                   = \<lparr> previous_cap = Some 100 \<rparr>\<lparr> previous_cap := Some (float_of_decimal (from_wei w)) \<rparr>"
    by (rule T2 [THEN c23, THEN conjunct2, THEN conjunct1, THEN mp, OF e])
  then have commit:
    "fst (check_cap_change CONFIG ?e2 \<lparr> previous_cap = Some 100 \<rparr>) = \<lparr> previous_cap = Some 150 \<rparr>"
    using c2 by (auto simp: f2 f2' d2)
  have failed:
    "fst (check_cap_change CONFIG ?e3 \<lparr> previous_cap = Some 0 \<rparr>) = \<lparr> previous_cap = Some 0 \<rparr>"
    by (rule T3 [THEN c26, THEN conjunct1, THEN mp, OF x])
  show ?thesis
    using c1 n first b nb e commit x failed by simp
qed

end
